theory Spec2Isabelle
  imports Complex_Main "HOL-Library.Multiset"
begin

section \<open>Bulk URL status checker: a shallow embedding of tool.py\<close>

text \<open>
  The development follows \<^verbatim>\<open>src/tool.py\<close>. Python strings are modelled as \<^typ>\<open>string\<close>,
  one \<^typ>\<open>char\<close> per code point below 256. Exceptions are values: every function that can
  raise returns \<open>py_exn + 'a\<close>, with \<open>Inl\<close> for the exception that reaches the caller.
  The network (\<^verbatim>\<open>requests.Session\<close>), the clock (\<^verbatim>\<open>time.time\<close>) and the completion order of
  the thread pool are inputs of the model. A Python float is the rational number it denotes.
\<close>

subsection \<open>Values, exceptions, outcomes\<close>

datatype py_exn =
    RequestException string string
  | ValueError string
  | ZeroDivisionError
  | TypeError
  | KeyError string
  | OtherException string

text \<open>
  \<open>RequestException cls msg\<close> stands for an instance of any subclass of
  \<^verbatim>\<open>requests.exceptions.RequestException\<close>: \<open>cls\<close> is \<^verbatim>\<open>type(e).__name__\<close> and \<open>msg\<close> is
  \<^verbatim>\<open>str(e)\<close>. All other constructors are exceptions outside that class hierarchy.
\<close>

datatype pyval = PNone | PBool bool | PInt int | PFloat rat | PStr string

type_synonym result = "string \<rightharpoonup> pyval"

record response =
  resp_status_code :: int
  resp_reason :: string
  resp_url :: string

datatype request = HEAD string | GET string

record env =
  session_head :: "string \<Rightarrow> py_exn + response"
  session_get :: "string \<Rightarrow> py_exn + response"
  elapsed :: rat

text \<open>
  \<open>session_head env u\<close> and \<open>session_get env u\<close> are what \<^verbatim>\<open>self.session.head(u, ...)\<close> and
  \<^verbatim>\<open>self.session.get(u, ...)\<close> do for one probe: return a response or raise. \<open>elapsed env\<close> is
  \<^verbatim>\<open>time.time() - start_time\<close> as read on line 96.
\<close>

subsection \<open>The standard library: \<^verbatim>\<open>str.strip\<close>, \<^verbatim>\<open>round\<close>, \<^verbatim>\<open>urlparse(url).scheme\<close>\<close>

definition isspace :: "char \<Rightarrow> bool" where
  "isspace c \<longleftrightarrow> (of_char c :: nat) \<in> {9, 10, 11, 12, 13, 28, 29, 30, 31, 32, 133, 160}"

definition strip :: "string \<Rightarrow> string" where
  "strip s = rev (dropWhile isspace (rev (dropWhile isspace s)))"

definition round_half_even :: "rat \<Rightarrow> int" where
  \<comment> \<open>the nearest integer, a tie going to the even one\<close>
  "round_half_even s =
     (let f = \<lfloor>s\<rfloor>; d = s - of_int f
      in if d < 1 / 2 then f else if 1 / 2 < d then f + 1 else if even f then f else f + 1)"

function bit_length :: "int \<Rightarrow> int" where
  "bit_length k = (if k \<le> 0 then 0 else 1 + bit_length (k div 2))"
  by pat_completeness auto
termination
  by (relation "measure nat") auto

declare bit_length.simps [simp del]

definition binary_exponent :: "rat \<Rightarrow> int" where
  \<comment> \<open>for \<open>x > 0\<close>, the \<open>e\<close> with \<open>2^e \<le> x < 2^(e+1)\<close>\<close>
  "binary_exponent x =
     (let (p, q) = quotient_of x;
          d = bit_length p - bit_length q
      in if of_int q * 2 powi d \<le> (of_int p :: rat) then d else d - 1)"

definition nearest_double :: "rat \<Rightarrow> rat" where
  \<comment> \<open>IEEE 754 binary64 rounding (53-bit significand, ties to even), exponent range unbounded\<close>
  "nearest_double x =
     (if x = 0 then 0
      else let ulp = 2 powi (binary_exponent \<bar>x\<bar> - 52)
           in sgn x * of_int (round_half_even (\<bar>x\<bar> / ulp)) * ulp)"

text \<open>
  A Python \<^verbatim>\<open>float\<close> is modelled by the rational number it denotes. \<open>nearest_double\<close> is the
  rounding that every float operation applies to its exact result; it agrees with the hardware
  for results between \<open>2^-1022\<close> and \<open>2^1024\<close> in magnitude, which holds of every value computed
  here.
\<close>

definition py_round :: "rat \<Rightarrow> nat \<Rightarrow> rat" where
  \<comment> \<open>\<^verbatim>\<open>round(x, n)\<close> of a float \<open>x\<close>: the float nearest to the decimal with \<open>n\<close> places that is
      nearest to the exact value of \<open>x\<close> (ties to even)\<close>
  "py_round x n = nearest_double (of_int (round_half_even (x * 10 ^ n)) / 10 ^ n)"

definition scheme_chars :: string where
  "scheme_chars = ''abcdefghijklmnopqrstuvwxyzABCDEFGHIJKLMNOPQRSTUVWXYZ0123456789+-.''"

definition ascii_letters :: string where
  "ascii_letters = ''abcdefghijklmnopqrstuvwxyzABCDEFGHIJKLMNOPQRSTUVWXYZ''"

definition lower_char :: "char \<Rightarrow> char" where
  "lower_char c =
     (case map_of (zip ''ABCDEFGHIJKLMNOPQRSTUVWXYZ'' ''abcdefghijklmnopqrstuvwxyz'') c of
        Some d \<Rightarrow> d | None \<Rightarrow> c)"

definition c0_control_or_space :: "char \<Rightarrow> bool" where
  "c0_control_or_space c \<longleftrightarrow> (of_char c :: nat) \<le> 32"

definition unsafe_url_byte :: "char \<Rightarrow> bool" where
  "unsafe_url_byte c \<longleftrightarrow> (of_char c :: nat) \<in> {9, 13, 10}"

fun find_char :: "char \<Rightarrow> string \<Rightarrow> nat option" where
  "find_char c [] = None"
| "find_char c (x # xs) =
     (if x = c then Some 0 else map_option Suc (find_char c xs))"

record pylib =
  check_bracketed_host :: "string \<Rightarrow> bool"
  checknetloc_nfkc :: "string \<Rightarrow> bool"

text \<open>
  Two checks of \<^verbatim>\<open>urllib.parse.urlsplit\<close> depend on the modules \<^verbatim>\<open>ipaddress\<close>, \<^verbatim>\<open>re\<close> and
  \<^verbatim>\<open>unicodedata\<close> and are parameters: \<open>check_bracketed_host lib h\<close> holds when
  \<^verbatim>\<open>_check_bracketed_host(h)\<close> returns without raising, \<open>checknetloc_nfkc lib n\<close> when the
  NFKC comparison of \<^verbatim>\<open>_checknetloc(n)\<close> does, for a non-ASCII \<open>n\<close>.
\<close>

definition split_scheme :: "string \<Rightarrow> string \<times> string" where
  \<comment> \<open>lines 486-492 of \<^verbatim>\<open>urlsplit\<close>: the scheme and the rest of the URL\<close>
  "split_scheme url =
     (case find_char CHR '':'' url of
        None \<Rightarrow> ('''', url)
      | Some i \<Rightarrow>
          if 0 < i \<and> hd url \<in> set ascii_letters \<and> (\<forall>c \<in> set (take i url). c \<in> set scheme_chars)
          then (map lower_char (take i url), drop (i + 1) url)
          else ('''', url))"

definition splitnetloc :: "string \<Rightarrow> string" where
  \<comment> \<open>\<^verbatim>\<open>_splitnetloc(url, 2)[0]\<close>: from index 2 up to the first of \<^verbatim>\<open>/ ? #\<close>\<close>
  "splitnetloc url = takeWhile (\<lambda>c. c \<notin> set ''/?#'') (drop 2 url)"

definition bracketed_host :: "string \<Rightarrow> string" where
  \<comment> \<open>\<^verbatim>\<open>netloc.partition('[')[2].partition(']')[0]\<close>\<close>
  "bracketed_host netloc =
     takeWhile (\<lambda>c. c \<noteq> CHR '']'') (drop 1 (dropWhile (\<lambda>c. c \<noteq> CHR ''['') netloc))"

definition isascii :: "string \<Rightarrow> bool" where
  "isascii s \<longleftrightarrow> (\<forall>c \<in> set s. (of_char c :: nat) < 128)"

definition urlparse_scheme :: "pylib \<Rightarrow> string \<Rightarrow> py_exn + string" where
  \<comment> \<open>\<^verbatim>\<open>urlparse(url).scheme\<close> of CPython 3.11, or the \<^verbatim>\<open>ValueError\<close> that \<^verbatim>\<open>urlsplit\<close> raises\<close>
  "urlparse_scheme lib url0 =
     (let url = filter (\<lambda>c. \<not> unsafe_url_byte c) (dropWhile c0_control_or_space url0);
          (scheme, rest) = split_scheme url;
          netloc = (if take 2 rest = ''//'' then splitnetloc rest else '''')
      in if take 2 rest = ''//'' \<and>
            ((CHR ''['' \<in> set netloc \<and> CHR '']'' \<notin> set netloc) \<or>
             (CHR '']'' \<in> set netloc \<and> CHR ''['' \<notin> set netloc))
         then Inl (ValueError ''Invalid IPv6 URL'')
         else if take 2 rest = ''//'' \<and> CHR ''['' \<in> set netloc \<and> CHR '']'' \<in> set netloc \<and>
                 \<not> check_bracketed_host lib (bracketed_host netloc)
         then Inl (ValueError ''invalid bracketed host'')
         else if netloc \<noteq> [] \<and> \<not> isascii netloc \<and> \<not> checknetloc_nfkc lib netloc
         then Inl (ValueError ''netloc contains invalid characters under NFKC normalization'')
         else Inr scheme)"

subsection \<open>\<^verbatim>\<open>UrlChecker.normalize_url\<close> (lines 47-51)\<close>

definition normalize_url :: "pylib \<Rightarrow> string \<Rightarrow> py_exn + string" where
  "normalize_url lib url =
     (case urlparse_scheme lib url of
        Inl e \<Rightarrow> Inl e
      | Inr scheme \<Rightarrow> if scheme = [] then Inr (''https://'' @ url) else Inr url)"

subsection \<open>\<^verbatim>\<open>UrlChecker.check_url\<close> (lines 53-111)\<close>

definition initial_result :: "string \<Rightarrow> result" where
  \<comment> \<open>lines 64-72\<close>
  "initial_result url =
     [''url'' \<mapsto> PStr url,
      ''original_url'' \<mapsto> PStr url,
      ''status_code'' \<mapsto> PNone,
      ''reason'' \<mapsto> PNone,
      ''is_error'' \<mapsto> PBool False,
      ''error_type'' \<mapsto> PNone,
      ''response_time'' \<mapsto> PInt 0]"

definition probe :: "env \<Rightarrow> string \<Rightarrow> (py_exn + response) \<times> request list" where
  \<comment> \<open>lines 77-94: the value of \<^verbatim>\<open>response\<close> or the exception raised, and the requests issued\<close>
  "probe e url =
     (case session_head e url of
        Inl x \<Rightarrow> (Inl x, [HEAD url])
      | Inr response \<Rightarrow>
          if resp_status_code response = 405
          then (session_get e url, [HEAD url, GET url])
          else (Inr response, [HEAD url]))"

definition record_response :: "env \<Rightarrow> string \<Rightarrow> response \<Rightarrow> result \<Rightarrow> result" where
  \<comment> \<open>lines 96-104\<close>
  "record_response e url response result =
     (let result = result(''response_time'' \<mapsto> PFloat (py_round (elapsed e) 2));
          result = result(''status_code'' \<mapsto> PInt (resp_status_code response));
          result = result(''reason'' \<mapsto> PStr (resp_reason response));
          result = result(''final_url'' \<mapsto> PStr (resp_url response))
      in if resp_url response \<noteq> url
         then result(''redirected'' \<mapsto> PBool True, ''redirect_url'' \<mapsto> PStr (resp_url response))
         else result)"

definition record_exception :: "string \<Rightarrow> string \<Rightarrow> result \<Rightarrow> result" where
  \<comment> \<open>lines 107-109\<close>
  "record_exception cls msg result =
     result(''is_error'' \<mapsto> PBool True, ''error_type'' \<mapsto> PStr cls, ''reason'' \<mapsto> PStr msg)"

definition check_url_trace :: "pylib \<Rightarrow> env \<Rightarrow> string \<Rightarrow> (py_exn + result) \<times> request list" where
  "check_url_trace lib e raw =
     (case normalize_url lib (strip raw) of
        Inl x \<Rightarrow> (Inl x, [])
      | Inr url \<Rightarrow>
          (case probe e url of
             (Inr response, reqs) \<Rightarrow> (Inr (record_response e url response (initial_result url)), reqs)
           | (Inl (RequestException cls msg), reqs) \<Rightarrow>
               (Inr (record_exception cls msg (initial_result url)), reqs)
           | (Inl x, reqs) \<Rightarrow> (Inl x, reqs)))"

definition check_url :: "pylib \<Rightarrow> env \<Rightarrow> string \<Rightarrow> py_exn + result" where
  "check_url lib e raw = fst (check_url_trace lib e raw)"

subsection \<open>Classification and \<^verbatim>\<open>UrlChecker.check_urls\<close> (lines 113-150)\<close>

datatype bucket = Working | Broken | Errors

record result_set =
  working :: "result list"
  broken :: "result list"
  errors :: "result list"

text \<open>
  The \<^verbatim>\<open>defaultdict(list)\<close> of line 123 is read at the keys \<^verbatim>\<open>'working'\<close>, \<^verbatim>\<open>'broken'\<close> and
  \<^verbatim>\<open>'errors'\<close> only; a key never appended to reads as the empty list.
\<close>

definition empty_results :: result_set where
  "empty_results = \<lparr>working = [], broken = [], errors = []\<rparr>"

definition truthy :: "pyval \<Rightarrow> bool" where
  "truthy v = (case v of PNone \<Rightarrow> False | PBool b \<Rightarrow> b | PInt i \<Rightarrow> i \<noteq> 0
               | PFloat q \<Rightarrow> q \<noteq> 0 | PStr s \<Rightarrow> s \<noteq> [])"

definition as_number :: "pyval \<Rightarrow> rat option" where
  \<comment> \<open>the operands Python orders against an \<^verbatim>\<open>int\<close>; any other raises \<^verbatim>\<open>TypeError\<close>\<close>
  "as_number v = (case v of PBool b \<Rightarrow> Some (of_bool b) | PInt i \<Rightarrow> Some (of_int i)
                  | PFloat q \<Rightarrow> Some q | _ \<Rightarrow> None)"

definition bucket_of :: "result \<Rightarrow> py_exn + bucket" where
  \<comment> \<open>lines 142-147\<close>
  "bucket_of r =
     (case r ''is_error'' of
        None \<Rightarrow> Inl (KeyError ''is_error'')
      | Some b \<Rightarrow>
          if truthy b then Inr Errors
          else (case r ''status_code'' of
                  None \<Rightarrow> Inl (KeyError ''status_code'')
                | Some s \<Rightarrow>
                    (case as_number s of
                       None \<Rightarrow> Inl TypeError
                     | Some c \<Rightarrow> if 200 \<le> c \<and> c < 400 then Inr Working else Inr Broken)))"

definition append_result :: "bucket \<Rightarrow> result \<Rightarrow> result_set \<Rightarrow> result_set" where
  "append_result b r rs =
     (case b of
        Errors \<Rightarrow> rs\<lparr>errors := errors rs @ [r]\<rparr>
      | Working \<Rightarrow> rs\<lparr>working := working rs @ [r]\<rparr>
      | Broken \<Rightarrow> rs\<lparr>broken := broken rs @ [r]\<rparr>)"

record loop_state =
  completed :: nat
  results :: result_set
  progress :: "(nat \<times> nat) list"

fun as_completed_loop :: "nat \<Rightarrow> (py_exn + result) list \<Rightarrow> loop_state \<Rightarrow> py_exn + loop_state" where
  \<comment> \<open>lines 135-147; a future that holds an exception re-raises it at \<^verbatim>\<open>future.result()\<close>\<close>
  "as_completed_loop tot [] st = Inr st"
| "as_completed_loop tot (future # futures) st =
     (let n = completed st + 1;
          out = (if n mod 10 = 0 \<or> n = tot then progress st @ [(n, tot)] else progress st)
      in case future of
           Inl x \<Rightarrow> Inl x
         | Inr r \<Rightarrow>
             (case bucket_of r of
                Inl x \<Rightarrow> Inl x
              | Inr b \<Rightarrow>
                  as_completed_loop tot futures
                    \<lparr>completed = n, results = append_result b r (results st), progress = out\<rparr>))"

definition submit_all :: "pylib \<Rightarrow> (nat \<Rightarrow> env) \<Rightarrow> string list \<Rightarrow> (py_exn + result) list" where
  \<comment> \<open>line 129: one future per element of \<^verbatim>\<open>urls\<close>, the \<open>i\<close>-th run against \<open>envs i\<close>\<close>
  "submit_all lib envs urls = map (\<lambda>(i, url). check_url lib (envs i) url) (enumerate 0 urls)"

definition check_urls ::
  "pylib \<Rightarrow> (nat \<Rightarrow> env) \<Rightarrow> int \<Rightarrow> string list \<Rightarrow> nat list \<Rightarrow> py_exn + loop_state" where
  \<comment> \<open>\<open>order\<close> lists the indices of the futures as \<^verbatim>\<open>as_completed\<close> yields them\<close>
  "check_urls lib envs max_workers urls order =
     (if max_workers \<le> 0 then Inl (ValueError ''max_workers must be greater than 0'')
      else let futures = submit_all lib envs urls
           in as_completed_loop (length futures) (map (\<lambda>i. futures ! i) order)
                \<lparr>completed = 0, results = empty_results, progress = []\<rparr>)"

definition completion_order :: "nat \<Rightarrow> nat list \<Rightarrow> bool" where
  \<comment> \<open>\<^verbatim>\<open>as_completed\<close> yields each of the \<open>k\<close> futures once, in any order\<close>
  "completion_order k order \<longleftrightarrow> mset order = mset [0..<k]"

definition total_outcomes :: "result_set \<Rightarrow> nat" where
  "total_outcomes rs = length (working rs) + length (broken rs) + length (errors rs)"

subsection \<open>\<^verbatim>\<open>UrlChecker.print_results\<close> (lines 152-180)\<close>

record report =
  working_lines :: "pyval list list"
  broken_lines :: "pyval list list"
  error_lines :: "pyval list list"
  total_checked :: nat
  working_pct :: rat
  broken_pct :: rat
  errors_pct :: rat

text \<open>
  What \<^verbatim>\<open>print_results\<close> writes to the console: for each listed outcome the values its line is
  formatted from, then the total and the three percentages.
\<close>

definition subscript :: "result \<Rightarrow> string \<Rightarrow> py_exn + pyval" where
  \<comment> \<open>\<^verbatim>\<open>result[key]\<close>\<close>
  "subscript r k = (case r k of None \<Rightarrow> Inl (KeyError k) | Some v \<Rightarrow> Inr v)"

fun subscripts :: "result \<Rightarrow> string list \<Rightarrow> py_exn + pyval list" where
  \<comment> \<open>the subscripts of one f-string, evaluated from left to right\<close>
  "subscripts r [] = Inr []"
| "subscripts r (k # ks) =
     (case subscript r k of
        Inl x \<Rightarrow> Inl x
      | Inr v \<Rightarrow> (case subscripts r ks of Inl x \<Rightarrow> Inl x | Inr vs \<Rightarrow> Inr (v # vs)))"

fun print_lines :: "string list \<Rightarrow> result list \<Rightarrow> py_exn + pyval list list" where
  \<comment> \<open>one of the loops of lines 161-162, 166-167 and 171-172\<close>
  "print_lines ks [] = Inr []"
| "print_lines ks (r # rs) =
     (case subscripts r ks of
        Inl x \<Rightarrow> Inl x
      | Inr l \<Rightarrow> (case print_lines ks rs of Inl x \<Rightarrow> Inl x | Inr ls \<Rightarrow> Inr (l # ls)))"

definition percentage :: "nat \<Rightarrow> nat \<Rightarrow> py_exn + rat" where
  \<comment> \<open>\<^verbatim>\<open>round(len(bucket)/total*100, 1)\<close>: a float division, a float product, a rounding\<close>
  "percentage n tot =
     (if tot = 0 then Inl ZeroDivisionError
      else Inr (py_round (nearest_double (nearest_double (of_nat n / of_nat tot) * 100)) 1))"

definition print_results :: "result_set \<Rightarrow> py_exn + report" where
  "print_results rs =
     (case print_lines [''url'', ''status_code'', ''reason'', ''response_time''] (working rs) of
        Inl x \<Rightarrow> Inl x
      | Inr wl \<Rightarrow>
     (case print_lines [''url'', ''status_code'', ''reason''] (broken rs) of
        Inl x \<Rightarrow> Inl x
      | Inr bl \<Rightarrow>
     (case print_lines [''url'', ''error_type'', ''reason''] (errors rs) of
        Inl x \<Rightarrow> Inl x
      | Inr el \<Rightarrow>
     (let total = length (working rs) + length (broken rs) + length (errors rs)
      in case percentage (length (working rs)) total of
           Inl x \<Rightarrow> Inl x
         | Inr w \<Rightarrow>
             (case percentage (length (broken rs)) total of
                Inl x \<Rightarrow> Inl x
              | Inr b \<Rightarrow>
                  (case percentage (length (errors rs)) total of
                     Inl x \<Rightarrow> Inl x
                   | Inr e \<Rightarrow>
                       Inr \<lparr>working_lines = wl, broken_lines = bl, error_lines = el,
                            total_checked = total, working_pct = w, broken_pct = b,
                            errors_pct = e\<rparr>))))))"

subsection \<open>\<^verbatim>\<open>UrlChecker.save_csv_report\<close> (lines 182-200)\<close>

definition fieldnames :: "string list" where
  "fieldnames = [''url'', ''status_code'', ''reason'', ''response_time'', ''is_error'',
                 ''error_type'', ''redirected'', ''redirect_url'']"

record csv_file =
  header :: "string list"
  rows :: "pyval list list"

text \<open>
  A row is the list of values handed to \<^verbatim>\<open>csv.DictWriter.writerow\<close>, in the order of
  \<^verbatim>\<open>fieldnames\<close>; the rendering of a value as text is the \<^verbatim>\<open>csv\<close> module's.
\<close>

definition get_or_empty :: "result \<Rightarrow> string \<Rightarrow> pyval" where
  \<comment> \<open>\<^verbatim>\<open>result.get(field, '')\<close>\<close>
  "get_or_empty r field = (case r field of None \<Rightarrow> PStr '''' | Some v \<Rightarrow> v)"

definition csv_row :: "result \<Rightarrow> pyval list" where
  \<comment> \<open>line 197\<close>
  "csv_row r = map (get_or_empty r) fieldnames"

definition category :: "result_set \<Rightarrow> string \<Rightarrow> result list" where
  "category rs c =
     (if c = ''working'' then working rs else if c = ''broken'' then broken rs
      else if c = ''errors'' then errors rs else [])"

fun write_rows :: "result list \<Rightarrow> csv_file \<Rightarrow> csv_file" where
  "write_rows [] f = f"
| "write_rows (r # rs) f = write_rows rs (f\<lparr>rows := rows f @ [csv_row r]\<rparr>)"

fun write_categories :: "result_set \<Rightarrow> string list \<Rightarrow> csv_file \<Rightarrow> csv_file" where
  "write_categories rs [] f = f"
| "write_categories rs (c # cs) f = write_categories rs cs (write_rows (category rs c) f)"

definition save_csv_report :: "result_set \<Rightarrow> csv_file" where
  "save_csv_report rs =
     write_categories rs [''working'', ''broken'', ''errors''] \<lparr>header = fieldnames, rows = []\<rparr>"

subsection \<open>\<^verbatim>\<open>load_urls_from_file\<close> and \<^verbatim>\<open>main\<close> (lines 202-248)\<close>

definition load_urls_from_file :: "string list option \<Rightarrow> string list" where
  \<comment> \<open>\<open>None\<close>: the file cannot be read; \<open>Some ls\<close>: its lines\<close>
  "load_urls_from_file f =
     (case f of None \<Rightarrow> [] | Some ls \<Rightarrow> map strip (filter (\<lambda>line. strip line \<noteq> []) ls))"

definition main ::
  "pylib \<Rightarrow> (nat \<Rightarrow> env) \<Rightarrow> int \<Rightarrow> string list option option \<Rightarrow> nat list
     \<Rightarrow> py_exn + (report \<times> csv_file) option" where
  \<comment> \<open>the outer option of the fourth argument is \<^verbatim>\<open>args.file\<close>; \<open>Inr None\<close> is the early return of line 239\<close>
  "main lib envs workers file order =
     (let urls = (case file of None \<Rightarrow> [] | Some f \<Rightarrow> load_urls_from_file f)
      in if urls = [] then Inr None
         else (case check_urls lib envs workers urls order of
                 Inl x \<Rightarrow> Inl x
               | Inr st \<Rightarrow>
                   (case print_results (results st) of
                      Inl x \<Rightarrow> Inl x
                    | Inr s \<Rightarrow> Inr (Some (s, save_csv_report (results st))))))"

definition all_outcomes :: "result_set \<Rightarrow> result list" where
  "all_outcomes rs = working rs @ broken rs @ errors rs"

subsection \<open>Example inputs\<close>

definition example_lib :: pylib where
  "example_lib = \<lparr>check_bracketed_host = (\<lambda>h. h = ''::1''), checknetloc_nfkc = (\<lambda>n. True)\<rparr>"

definition example_env_ok :: env where
  \<comment> \<open>a server that answers \<^verbatim>\<open>HEAD\<close> with 200 at the requested URL\<close>
  "example_env_ok =
     \<lparr>session_head = (\<lambda>u. Inr \<lparr>resp_status_code = 200, resp_reason = ''OK'', resp_url = u\<rparr>),
      session_get = (\<lambda>u. Inr \<lparr>resp_status_code = 200, resp_reason = ''OK'', resp_url = u\<rparr>),
      elapsed = 1 / 8\<rparr>"

definition example_env_moved :: env where
  \<comment> \<open>a server that redirects every request to \<^verbatim>\<open>https://b/\<close>\<close>
  "example_env_moved =
     \<lparr>session_head = (\<lambda>u. Inr \<lparr>resp_status_code = 200, resp_reason = ''OK'', resp_url = ''https://b/''\<rparr>),
      session_get = (\<lambda>u. Inr \<lparr>resp_status_code = 200, resp_reason = ''OK'', resp_url = ''https://b/''\<rparr>),
      elapsed = 1 / 8\<rparr>"

definition example_env_405 :: env where
  \<comment> \<open>a server that rejects \<^verbatim>\<open>HEAD\<close> with 405 and answers \<^verbatim>\<open>GET\<close> with 404\<close>
  "example_env_405 =
     \<lparr>session_head =
        (\<lambda>u. Inr \<lparr>resp_status_code = 405, resp_reason = ''Method Not Allowed'', resp_url = u\<rparr>),
      session_get = (\<lambda>u. Inr \<lparr>resp_status_code = 404, resp_reason = ''Not Found'', resp_url = u\<rparr>),
      elapsed = 1 / 8\<rparr>"

definition example_env_down :: env where
  \<comment> \<open>a host that refuses the connection\<close>
  "example_env_down =
     \<lparr>session_head = (\<lambda>u. Inl (RequestException ''ConnectionError'' ''connection refused'')),
      session_get = (\<lambda>u. Inl (RequestException ''ConnectionError'' ''connection refused'')),
      elapsed = 1 / 8\<rparr>"

definition example_outcome_ok :: result where
  "example_outcome_ok =
     record_response example_env_ok ''https://example.com/''
       \<lparr>resp_status_code = 200, resp_reason = ''OK'', resp_url = ''https://example.com/''\<rparr>
       (initial_result ''https://example.com/'')"

definition example_outcome_down :: result where
  "example_outcome_down =
     record_exception ''ConnectionError'' ''connection refused'' (initial_result ''https://example.com/'')"

definition example_outcome_moved :: result where
  "example_outcome_moved =
     record_response example_env_moved ''https://example.com/''
       \<lparr>resp_status_code = 200, resp_reason = ''OK'', resp_url = ''https://b/''\<rparr>
       (initial_result ''https://example.com/'')"

definition example_state :: loop_state where
  "example_state =
     \<lparr>completed = 1,
      results = \<lparr>working = [example_outcome_ok], broken = [], errors = []\<rparr>,
      progress = [(1, 1)]\<rparr>"

definition example_state_down :: loop_state where
  "example_state_down =
     \<lparr>completed = 1,
      results = \<lparr>working = [], broken = [], errors = [example_outcome_down]\<rparr>,
      progress = [(1, 1)]\<rparr>"

definition example_env_600 :: env where
  \<comment> \<open>a server that answers with the status code 600\<close>
  "example_env_600 =
     \<lparr>session_head = (\<lambda>u. Inr \<lparr>resp_status_code = 600, resp_reason = ''Unknown'', resp_url = u\<rparr>),
      session_get = (\<lambda>u. Inr \<lparr>resp_status_code = 600, resp_reason = ''Unknown'', resp_url = u\<rparr>),
      elapsed = 1 / 8\<rparr>"

definition example_outcome_600 :: result where
  "example_outcome_600 =
     record_response example_env_600 ''https://example.com/''
       \<lparr>resp_status_code = 600, resp_reason = ''Unknown'', resp_url = ''https://example.com/''\<rparr>
       (initial_result ''https://example.com/'')"

definition example_envs :: "nat \<Rightarrow> env" where
  \<comment> \<open>three probes: the first is answered with 200, the second with 600, the third is refused\<close>
  "example_envs i =
     (if i = 0 then example_env_ok else if i = 1 then example_env_600 else example_env_down)"

definition example_urls :: "string list" where
  "example_urls = [''https://example.com/'', ''https://example.com/'', ''https://example.com/'']"

definition example_state_mixed :: loop_state where
  \<comment> \<open>the three probes completed in the order third, first, second\<close>
  "example_state_mixed =
     \<lparr>completed = 3,
      results = \<lparr>working = [example_outcome_ok], broken = [example_outcome_600],
                 errors = [example_outcome_down]\<rparr>,
      progress = [(3, 3)]\<rparr>"

section \<open>Properties\<close>

subsection \<open>Outcomes of \<^verbatim>\<open>check_url\<close>\<close>

lemma check_url_Inr_cases:
  assumes "check_url lib e raw = Inr r"
  obtains (response) url resp reqs where
      "normalize_url lib (strip raw) = Inr url" "probe e url = (Inr resp, reqs)"
      "r = record_response e url resp (initial_result url)"
  | (exception) url cls msg reqs where
      "normalize_url lib (strip raw) = Inr url"
      "probe e url = (Inl (RequestException cls msg), reqs)"
      "r = record_exception cls msg (initial_result url)"
  using assms
  by (auto simp: check_url_def check_url_trace_def split: sum.splits prod.splits py_exn.splits)

lemma record_response_fields:
  "record_response e url resp (initial_result url) ''is_error'' = Some (PBool False)"
  "record_response e url resp (initial_result url) ''status_code'' =
     Some (PInt (resp_status_code resp))"
  "record_response e url resp (initial_result url) ''url'' = Some (PStr url)"
  "record_response e url resp (initial_result url) ''final_url'' = Some (PStr (resp_url resp))"
  "record_response e url resp (initial_result url) ''error_type'' = Some PNone"
  "record_response e url resp (initial_result url) ''reason'' = Some (PStr (resp_reason resp))"
  "record_response e url resp (initial_result url) ''response_time'' =
     Some (PFloat (py_round (elapsed e) 2))"
  "record_response e url resp (initial_result url) ''redirected'' =
     (if resp_url resp \<noteq> url then Some (PBool True) else None)"
  "record_response e url resp (initial_result url) ''redirect_url'' =
     (if resp_url resp \<noteq> url then Some (PStr (resp_url resp)) else None)"
  by (simp_all add: record_response_def initial_result_def Let_def)

lemma record_exception_fields:
  "record_exception cls msg (initial_result url) ''is_error'' = Some (PBool True)"
  "record_exception cls msg (initial_result url) ''status_code'' = Some PNone"
  "record_exception cls msg (initial_result url) ''url'' = Some (PStr url)"
  "record_exception cls msg (initial_result url) ''final_url'' = None"
  "record_exception cls msg (initial_result url) ''error_type'' = Some (PStr cls)"
  "record_exception cls msg (initial_result url) ''reason'' = Some (PStr msg)"
  "record_exception cls msg (initial_result url) ''response_time'' = Some (PInt 0)"
  "record_exception cls msg (initial_result url) ''redirected'' = None"
  "record_exception cls msg (initial_result url) ''redirect_url'' = None"
  by (simp_all add: record_exception_def initial_result_def)

lemmas urlparse_eval =
  normalize_url_def urlparse_scheme_def split_scheme_def c0_control_or_space_def
  unsafe_url_byte_def ascii_letters_def scheme_chars_def splitnetloc_def bracketed_host_def
  isascii_def lower_char_def strip_def isspace_def

lemma normalize_example:
  "normalize_url lib (strip ''https://example.com/'') = Inr ''https://example.com/''"
  by (simp add: urlparse_eval)

lemma check_url_example_ok:
  "check_url example_lib example_env_ok ''https://example.com/'' = Inr example_outcome_ok"
  by (simp add: check_url_def check_url_trace_def normalize_example probe_def example_env_ok_def
      example_outcome_ok_def)

lemma check_url_example_down:
  "check_url example_lib example_env_down ''https://example.com/'' = Inr example_outcome_down"
  by (simp add: check_url_def check_url_trace_def normalize_example probe_def
      example_env_down_def example_outcome_down_def)

lemma check_url_example_moved:
  "check_url example_lib example_env_moved ''https://example.com/'' = Inr example_outcome_moved"
  by (simp add: check_url_def check_url_trace_def normalize_example probe_def
      example_env_moved_def example_outcome_moved_def)

lemma check_url_unclosed_bracket:
  "check_url lib e ''http://['' = Inl (ValueError ''Invalid IPv6 URL'')"
  by (simp add: check_url_def check_url_trace_def urlparse_eval)

text \<open>
  Claim C2, as amended. In every outcome that \<^verbatim>\<open>check_url\<close> returns, the key \<^verbatim>\<open>redirected\<close> is
  either absent or holds \<^verbatim>\<open>True\<close>; it holds \<^verbatim>\<open>True\<close> exactly when a response was received whose
  final URL differs from the normalized request URL; \<^verbatim>\<open>redirect_url\<close> is present exactly when
  \<^verbatim>\<open>redirected\<close> is, and then equals the final URL. The value \<^verbatim>\<open>False\<close> is never stored.
\<close>

theorem redirect_fields:
  assumes "check_url lib e raw = Inr r"
  shows "(r ''redirected'' = None \<or> r ''redirected'' = Some (PBool True)) \<and>
         (r ''redirected'' = Some (PBool True) \<longleftrightarrow>
            (\<exists>u f. r ''url'' = Some (PStr u) \<and> r ''final_url'' = Some (PStr f) \<and> f \<noteq> u)) \<and>
         (r ''redirect_url'' \<noteq> None \<longleftrightarrow> r ''redirected'' = Some (PBool True)) \<and>
         (r ''redirected'' = Some (PBool True) \<longrightarrow> r ''redirect_url'' = r ''final_url'')"
  using assms
  by (cases rule: check_url_Inr_cases)
     (auto simp add: record_response_fields record_exception_fields)

theorem redirect_fields_witness:
  "check_url example_lib example_env_moved ''https://example.com/'' = Inr example_outcome_moved \<and>
   example_outcome_moved ''redirected'' = Some (PBool True) \<and>
   example_outcome_moved ''redirect_url'' = Some (PStr ''https://b/'')"
proof -
  note t = redirect_fields [OF check_url_example_moved]
  have f: "example_outcome_moved ''final_url'' = Some (PStr ''https://b/'')"
    and u: "example_outcome_moved ''url'' = Some (PStr ''https://example.com/'')"
    by (simp_all add: example_outcome_moved_def record_response_fields)
  have ne: "''https://b/'' \<noteq> ''https://example.com/''" by simp
  from t have "example_outcome_moved ''redirected'' = Some (PBool True) \<longleftrightarrow>
      (\<exists>u f. example_outcome_moved ''url'' = Some (PStr u) \<and>
             example_outcome_moved ''final_url'' = Some (PStr f) \<and> f \<noteq> u)" by blast
  with f u ne have r: "example_outcome_moved ''redirected'' = Some (PBool True)" by blast
  from t r have "example_outcome_moved ''redirect_url'' = example_outcome_moved ''final_url''"
    by blast
  with f r check_url_example_moved show ?thesis by simp
qed

text \<open>
  Claim C2 as stated fails: a probe whose final URL equals the normalized URL returns an outcome
  without the key \<^verbatim>\<open>redirected\<close>, not one that carries \<^verbatim>\<open>False\<close>.
\<close>

theorem redirected_absent_counterexample:
  "check_url example_lib example_env_ok ''https://example.com/'' = Inr example_outcome_ok \<and>
   example_outcome_ok ''url'' = Some (PStr ''https://example.com/'') \<and>
   example_outcome_ok ''final_url'' = Some (PStr ''https://example.com/'') \<and>
   example_outcome_ok ''redirected'' = None"
  by (simp add: check_url_example_ok) (simp add: example_outcome_ok_def record_response_fields)

text \<open>
  Claim C3 at the input \<^verbatim>\<open>"http://["\<close>: \<^verbatim>\<open>normalize_url\<close> runs before the \<^verbatim>\<open>try\<close> block, \<^verbatim>\<open>urlparse\<close>
  raises \<^verbatim>\<open>ValueError\<close>, and \<^verbatim>\<open>check_url\<close> passes it to its caller instead of returning an outcome,
  whatever the network does.
\<close>

theorem check_url_propagates_ValueError:
  "check_url lib e ''http://['' = Inl (ValueError ''Invalid IPv6 URL'')"
  by (simp add: check_url_def check_url_trace_def urlparse_eval)

text \<open>
  The failures that \<^verbatim>\<open>check_url\<close> does convert: once the URL is normalized, an exception of the
  \<^verbatim>\<open>RequestException\<close> family raised by the \<^verbatim>\<open>HEAD\<close> request or by the \<^verbatim>\<open>GET\<close> fallback is caught,
  and \<^verbatim>\<open>check_url\<close> returns an outcome with \<^verbatim>\<open>is_error\<close> true, \<^verbatim>\<open>error_type\<close> the exception's class
  name, \<^verbatim>\<open>reason\<close> its message and no status code.
\<close>

theorem network_failure_converted:
  assumes "normalize_url lib (strip raw) = Inr url"
    and "fst (probe e url) = Inl (RequestException cls msg)"
  shows "\<exists>r. check_url lib e raw = Inr r \<and> r ''is_error'' = Some (PBool True) \<and>
           r ''error_type'' = Some (PStr cls) \<and> r ''reason'' = Some (PStr msg) \<and>
           r ''url'' = Some (PStr url) \<and> r ''status_code'' = Some PNone"
  using assms
  by (cases "probe e url") (simp add: check_url_def check_url_trace_def record_exception_fields)

theorem network_failure_converted_witness:
  "normalize_url example_lib (strip ''https://example.com/'') = Inr ''https://example.com/'' \<and>
   fst (probe example_env_down ''https://example.com/'') =
     Inl (RequestException ''ConnectionError'' ''connection refused'') \<and>
   check_url example_lib example_env_down ''https://example.com/'' = Inr example_outcome_down \<and>
   example_outcome_down ''is_error'' = Some (PBool True) \<and>
   example_outcome_down ''error_type'' = Some (PStr ''ConnectionError'') \<and>
   example_outcome_down ''reason'' = Some (PStr ''connection refused'')"
proof -
  have n: "normalize_url example_lib (strip ''https://example.com/'') = Inr ''https://example.com/''"
    by (rule normalize_example)
  have p: "fst (probe example_env_down ''https://example.com/'') =
     Inl (RequestException ''ConnectionError'' ''connection refused'')"
    by (simp add: probe_def example_env_down_def)
  from network_failure_converted [OF n p] obtain r where
    r: "check_url example_lib example_env_down ''https://example.com/'' = Inr r"
      "r ''is_error'' = Some (PBool True)" "r ''error_type'' = Some (PStr ''ConnectionError'')"
      "r ''reason'' = Some (PStr ''connection refused'')" by blast
  from r(1) check_url_example_down have "r = example_outcome_down" by simp
  with r n p show ?thesis by blast
qed

text \<open>
  Claim C4. Every outcome that \<^verbatim>\<open>check_url\<close> returns satisfies exactly one of: \<^verbatim>\<open>is_error\<close> is
  \<^verbatim>\<open>True\<close> and \<^verbatim>\<open>status_code\<close> is \<^verbatim>\<open>None\<close>; or \<^verbatim>\<open>is_error\<close> is \<^verbatim>\<open>False\<close> and \<^verbatim>\<open>status_code\<close> is an
  integer.
\<close>

theorem error_xor_status:
  assumes "check_url lib e raw = Inr r"
  shows "(r ''is_error'' = Some (PBool True) \<and> r ''status_code'' = Some PNone) \<or>
         (r ''is_error'' = Some (PBool False) \<and> (\<exists>c. r ''status_code'' = Some (PInt c)))"
  using assms
  by (cases rule: check_url_Inr_cases)
     (simp_all add: record_response_fields record_exception_fields)

theorem error_xor_status_witness:
  "check_url example_lib example_env_ok ''https://example.com/'' = Inr example_outcome_ok \<and>
   example_outcome_ok ''is_error'' = Some (PBool False) \<and>
   example_outcome_ok ''status_code'' = Some (PInt 200)"
  using error_xor_status [OF check_url_example_ok] check_url_example_ok
  by (simp add: example_outcome_ok_def record_response_fields)

text \<open>
  Claim C7. When the \<^verbatim>\<open>HEAD\<close> request returns 405 and the \<^verbatim>\<open>GET\<close> request returns a response,
  the outcome records the status code of the \<^verbatim>\<open>GET\<close> response. The requests issued for one URL
  are the \<^verbatim>\<open>HEAD\<close> alone or the \<^verbatim>\<open>HEAD\<close> followed by one \<^verbatim>\<open>GET\<close>, and the \<^verbatim>\<open>GET\<close> is issued exactly
  when the \<^verbatim>\<open>HEAD\<close> returned 405.
\<close>

theorem fallback_on_405:
  assumes "normalize_url lib (strip raw) = Inr url"
  shows "(\<forall>r1 r2. session_head e url = Inr r1 \<and> resp_status_code r1 = 405 \<and>
                  session_get e url = Inr r2 \<longrightarrow>
            (\<exists>r. check_url_trace lib e raw = (Inr r, [HEAD url, GET url]) \<and>
                 r ''status_code'' = Some (PInt (resp_status_code r2)))) \<and>
         (snd (check_url_trace lib e raw) = [HEAD url] \<or>
          snd (check_url_trace lib e raw) = [HEAD url, GET url]) \<and>
         (GET url \<in> set (snd (check_url_trace lib e raw)) \<longleftrightarrow>
            (\<exists>r1. session_head e url = Inr r1 \<and> resp_status_code r1 = 405))"
  using assms
  by (auto simp: check_url_trace_def probe_def record_response_fields
      split: sum.splits py_exn.splits)

theorem fallback_on_405_witness:
  "normalize_url example_lib (strip ''https://example.com/'') = Inr ''https://example.com/'' \<and>
   (\<exists>r. check_url_trace example_lib example_env_405 ''https://example.com/'' =
          (Inr r, [HEAD ''https://example.com/'', GET ''https://example.com/'']) \<and>
        r ''status_code'' = Some (PInt 404))"
proof -
  have n: "normalize_url example_lib (strip ''https://example.com/'') = Inr ''https://example.com/''"
    by (rule normalize_example)
  let ?r1 = "\<lparr>resp_status_code = 405, resp_reason = ''Method Not Allowed'',
              resp_url = ''https://example.com/''\<rparr>"
  let ?r2 = "\<lparr>resp_status_code = 404, resp_reason = ''Not Found'',
              resp_url = ''https://example.com/''\<rparr>"
  have h: "session_head example_env_405 ''https://example.com/'' = Inr ?r1"
    and g: "session_get example_env_405 ''https://example.com/'' = Inr ?r2"
    by (simp_all add: example_env_405_def)
  have s: "resp_status_code ?r1 = 405" "resp_status_code ?r2 = 404" by simp_all
  from fallback_on_405 [OF n, where e = example_env_405]
  have "\<forall>r1 r2. session_head example_env_405 ''https://example.com/'' = Inr r1 \<and>
          resp_status_code r1 = 405 \<and>
          session_get example_env_405 ''https://example.com/'' = Inr r2 \<longrightarrow>
          (\<exists>r. check_url_trace example_lib example_env_405 ''https://example.com/'' =
                 (Inr r, [HEAD ''https://example.com/'', GET ''https://example.com/'']) \<and>
               r ''status_code'' = Some (PInt (resp_status_code r2)))" by (rule conjunct1)
  with h g s(1)
  have "\<exists>r. check_url_trace example_lib example_env_405 ''https://example.com/'' =
                 (Inr r, [HEAD ''https://example.com/'', GET ''https://example.com/'']) \<and>
               r ''status_code'' = Some (PInt (resp_status_code ?r2))" by blast
  with n s(2) show ?thesis by simp
qed

text \<open>
  Claim C10. When the \<^verbatim>\<open>HEAD\<close> request or the \<^verbatim>\<open>GET\<close> fallback raises an exception of the
  \<^verbatim>\<open>RequestException\<close> family, \<^verbatim>\<open>check_url\<close> returns an outcome whose \<^verbatim>\<open>response_time\<close> is the
  initial \<^verbatim>\<open>0\<close> and which has none of the keys \<^verbatim>\<open>final_url\<close>, \<^verbatim>\<open>redirected\<close>, \<^verbatim>\<open>redirect_url\<close>.
\<close>

theorem failure_outcome_fields:
  assumes "normalize_url lib (strip raw) = Inr url"
    and "fst (probe e url) = Inl (RequestException cls msg)"
  shows "\<exists>r. check_url lib e raw = Inr r \<and> r ''is_error'' = Some (PBool True) \<and>
           r ''response_time'' = Some (PInt 0) \<and> r ''final_url'' = None \<and>
           r ''redirected'' = None \<and> r ''redirect_url'' = None"
  using assms
  by (cases "probe e url") (simp add: check_url_def check_url_trace_def record_exception_fields)

theorem failure_outcome_fields_witness:
  "normalize_url example_lib (strip ''https://example.com/'') = Inr ''https://example.com/'' \<and>
   fst (probe example_env_down ''https://example.com/'') =
     Inl (RequestException ''ConnectionError'' ''connection refused'') \<and>
   check_url example_lib example_env_down ''https://example.com/'' = Inr example_outcome_down \<and>
   example_outcome_down ''response_time'' = Some (PInt 0) \<and>
   example_outcome_down ''final_url'' = None \<and>
   example_outcome_down ''redirected'' = None \<and>
   example_outcome_down ''redirect_url'' = None"
proof -
  have n: "normalize_url example_lib (strip ''https://example.com/'') = Inr ''https://example.com/''"
    by (rule normalize_example)
  have p: "fst (probe example_env_down ''https://example.com/'') =
     Inl (RequestException ''ConnectionError'' ''connection refused'')"
    by (simp add: probe_def example_env_down_def)
  from failure_outcome_fields [OF n p] obtain r where
    r: "check_url example_lib example_env_down ''https://example.com/'' = Inr r"
      "r ''response_time'' = Some (PInt 0)" "r ''final_url'' = None"
      "r ''redirected'' = None" "r ''redirect_url'' = None" by blast
  from r(1) check_url_example_down have "r = example_outcome_down" by simp
  with r n p show ?thesis by blast
qed

subsection \<open>\<^verbatim>\<open>normalize_url\<close>\<close>

lemma urlparse_scheme_https:
  assumes "urlparse_scheme lib (''https://'' @ u) = Inr s"
  shows "s = ''https''"
  using assms
  by (simp add: urlparse_scheme_def split_scheme_def c0_control_or_space_def unsafe_url_byte_def
      ascii_letters_def scheme_chars_def lower_char_def Let_def split: if_splits)

lemma normalize_url_idem:
  assumes "normalize_url lib u = Inr v" and "normalize_url lib v = Inr w"
  shows "w = v"
proof (cases "urlparse_scheme lib u")
  case (Inl x)
  with assms(1) show ?thesis by (simp add: normalize_url_def)
next
  case (Inr s)
  show ?thesis
  proof (cases "s = []")
    case True
    with Inr assms(1) have v: "v = ''https://'' @ u" by (simp add: normalize_url_def)
    from assms(2) obtain s' where s': "urlparse_scheme lib v = Inr s'"
      by (auto simp: normalize_url_def split: sum.splits)
    with v have "s' = ''https''" using urlparse_scheme_https by blast
    with s' assms(2) show ?thesis by (simp add: normalize_url_def)
  next
    case False
    with Inr assms(1) have "v = u" by (simp add: normalize_url_def)
    with assms show ?thesis by simp
  qed
qed

text \<open>
  Claim C8, as amended. Whenever \<^verbatim>\<open>urlparse\<close> accepts the input, \<^verbatim>\<open>normalize_url\<close> prepends
  \<^verbatim>\<open>https://\<close> exactly when the parsed scheme is empty and returns the input unchanged
  otherwise; whenever normalizing a normalized URL returns at all, it returns that URL
  unchanged; and \<^verbatim>\<open>example.com\<close> is normalized to \<^verbatim>\<open>https://example.com\<close>.
\<close>

theorem normalize_url_spec:
  "(urlparse_scheme lib u = Inr s \<longrightarrow>
      normalize_url lib u = Inr (if s = [] then ''https://'' @ u else u)) \<and>
   (normalize_url lib u = Inr v \<and> normalize_url lib v = Inr w \<longrightarrow> w = v) \<and>
   normalize_url lib ''example.com'' = Inr ''https://example.com''"
proof -
  have "normalize_url lib ''example.com'' = Inr ''https://example.com''"
    by (simp add: urlparse_eval)
  moreover have "urlparse_scheme lib u = Inr s \<longrightarrow>
      normalize_url lib u = Inr (if s = [] then ''https://'' @ u else u)"
    by (simp add: normalize_url_def)
  ultimately show ?thesis using normalize_url_idem by blast
qed

theorem normalize_url_spec_witness:
  "urlparse_scheme example_lib ''example.com'' = Inr [] \<and>
   normalize_url example_lib ''example.com'' = Inr ''https://example.com'' \<and>
   normalize_url example_lib ''https://example.com'' = Inr ''https://example.com''"
proof -
  have a: "urlparse_scheme example_lib ''example.com'' = Inr []"
    by (simp add: urlparse_eval)
  have b: "normalize_url example_lib ''https://example.com'' = Inr ''https://example.com''"
    by (simp add: urlparse_eval)
  from normalize_url_spec [of example_lib "''example.com''" "[]" "''https://example.com''"
      "''https://example.com''"] a b
  show ?thesis by simp
qed

text \<open>
  Claim C8 as stated fails: \<^verbatim>\<open>"["\<close> has no scheme and is normalized to \<^verbatim>\<open>"https://["\<close>, and
  normalizing that result raises \<^verbatim>\<open>ValueError\<close> instead of returning it.
\<close>

theorem normalize_url_twice_counterexample:
  "normalize_url example_lib ''['' = Inr ''https://['' \<and>
   normalize_url example_lib ''https://['' = Inl (ValueError ''Invalid IPv6 URL'')"
  by (simp add: urlparse_eval)

subsection \<open>Classification and the dispatcher\<close>

lemma append_result_buckets:
  "working (append_result b r rs) = working rs @ (if b = Working then [r] else [])"
  "broken (append_result b r rs) = broken rs @ (if b = Broken then [r] else [])"
  "errors (append_result b r rs) = errors rs @ (if b = Errors then [r] else [])"
  by (cases b; simp add: append_result_def)+

lemma bucket_of_check_url:
  assumes "check_url lib e raw = Inr r"
  shows "\<exists>b. bucket_of r = Inr b"
  using assms
  by (cases rule: check_url_Inr_cases)
     (simp_all add: bucket_of_def truthy_def as_number_def record_response_fields
        record_exception_fields)

lemma mset_all_outcomes_append:
  "mset (all_outcomes (append_result b r rs)) = add_mset r (mset (all_outcomes rs))"
  by (cases b) (simp_all add: all_outcomes_def append_result_def)

lemma total_outcomes_length: "total_outcomes rs = length (all_outcomes rs)"
  by (simp add: total_outcomes_def all_outcomes_def)

lemma as_completed_loop_mset:
  assumes "as_completed_loop tot fs st = Inr st'"
  shows "image_mset Inr (mset (all_outcomes (results st'))) =
         image_mset Inr (mset (all_outcomes (results st))) + mset fs"
  using assms
proof (induction fs arbitrary: st)
  case Nil
  then show ?case by simp
next
  case (Cons f fs)
  then show ?case
    by (auto simp: Let_def mset_all_outcomes_append split: sum.splits)
qed

lemma as_completed_loop_returns:
  assumes "\<forall>f \<in> set fs. \<exists>r b. f = Inr r \<and> bucket_of r = Inr b"
  shows "\<exists>st'. as_completed_loop tot fs st = Inr st'"
  using assms
proof (induction fs arbitrary: st)
  case Nil
  then show ?case by simp
next
  case (Cons f fs)
  then obtain r b where f: "f = Inr r" "bucket_of r = Inr b" by auto
  from Cons have "\<forall>f \<in> set fs. \<exists>r b. f = Inr r \<and> bucket_of r = Inr b" by simp
  from Cons.IH [OF this] f show ?case by (simp add: Let_def)
qed

lemma mset_completed:
  assumes "completion_order (length fs) order"
  shows "mset (map (\<lambda>i. fs ! i) order) = mset fs"
proof -
  have "mset (map (\<lambda>i. fs ! i) order) = image_mset (\<lambda>i. fs ! i) (mset order)" by simp
  also have "\<dots> = image_mset (\<lambda>i. fs ! i) (mset [0..<length fs])"
    using assms by (simp add: completion_order_def)
  also have "\<dots> = mset (map (\<lambda>i. fs ! i) [0..<length fs])" by simp
  also have "\<dots> = mset fs" by (simp add: map_nth)
  finally show ?thesis .
qed

lemma length_submit_all: "length (submit_all lib envs urls) = length urls"
  by (simp add: submit_all_def)

lemma submit_all_nth:
  "i < length urls \<Longrightarrow> submit_all lib envs urls ! i = check_url lib (envs i) (urls ! i)"
  by (simp add: submit_all_def nth_enumerate_eq)

lemma check_urls_outcomes:
  assumes "check_urls lib envs n urls order = Inr st" and "completion_order (length urls) order"
  shows "image_mset Inr (mset (all_outcomes (results st))) = mset (submit_all lib envs urls)"
proof -
  let ?fs = "submit_all lib envs urls"
  from assms(1) have loop: "as_completed_loop (length ?fs) (map (\<lambda>i. ?fs ! i) order)
      \<lparr>completed = 0, results = empty_results, progress = []\<rparr> = Inr st"
    by (simp add: check_urls_def Let_def split: if_splits)
  have "mset (map (\<lambda>i. ?fs ! i) order) = mset ?fs"
    using assms(2) by (intro mset_completed) (simp add: length_submit_all)
  with as_completed_loop_mset [OF loop] show ?thesis
    by (simp add: all_outcomes_def empty_results_def)
qed

lemma check_urls_total:
  assumes "check_urls lib envs n urls order = Inr st" and "completion_order (length urls) order"
  shows "total_outcomes (results st) = length urls"
proof -
  have "size (image_mset (Inr :: result \<Rightarrow> py_exn + result) (mset (all_outcomes (results st)))) =
        size (mset (submit_all lib envs urls))"
    using check_urls_outcomes [OF assms] by simp
  then show ?thesis by (simp add: total_outcomes_length length_submit_all)
qed

lemma bucket_example_ok: "bucket_of example_outcome_ok = Inr Working"
  by (simp add: bucket_of_def example_outcome_ok_def record_response_fields truthy_def
      as_number_def)

lemma bucket_example_down: "bucket_of example_outcome_down = Inr Errors"
  by (simp add: bucket_of_def example_outcome_down_def record_exception_fields truthy_def)

lemma check_urls_example:
  "check_urls example_lib (\<lambda>i. example_env_ok) 10 [''https://example.com/''] [0] =
     Inr example_state"
  by (simp add: check_urls_def submit_all_def enumerate_eq_zip check_url_example_ok
      bucket_example_ok append_result_def empty_results_def example_state_def)

lemma check_urls_example_down:
  "check_urls example_lib (\<lambda>i. example_env_down) 10 [''https://example.com/''] [0] =
     Inr example_state_down"
  by (simp add: check_urls_def submit_all_def enumerate_eq_zip check_url_example_down
      bucket_example_down append_result_def empty_results_def example_state_down_def)

lemma completion_order_example: "completion_order (length [''https://example.com/'']) [0]"
  by (simp add: completion_order_def)

lemma check_url_well_formed:
  assumes "check_url lib e raw = Inr r"
  shows "(r ''is_error'' = Some (PBool True) \<and> r ''status_code'' = Some PNone) \<or>
         (r ''is_error'' = Some (PBool False) \<and> (\<exists>c. r ''status_code'' = Some (PInt c)))"
  using assms
  by (cases rule: check_url_Inr_cases)
     (simp_all add: record_response_fields record_exception_fields)

lemma bucket_of_rule:
  assumes "(r ''is_error'' = Some (PBool True) \<and> r ''status_code'' = Some PNone) \<or>
           (r ''is_error'' = Some (PBool False) \<and> (\<exists>c. r ''status_code'' = Some (PInt c)))"
  shows "bucket_of r =
           Inr (if r ''is_error'' = Some (PBool True) then Errors
                else if \<exists>c. r ''status_code'' = Some (PInt c) \<and> 200 \<le> c \<and> c < 400 then Working
                else Broken)"
  using assms by (auto simp: bucket_of_def truthy_def as_number_def)

lemma as_completed_loop_all_returned:
  assumes "as_completed_loop tot fs st = Inr st'"
  shows "\<exists>outs. fs = map Inr outs"
  using assms
proof (induction fs arbitrary: st)
  case Nil
  then show ?case by simp
next
  case (Cons f fs)
  from Cons.prems obtain r b st1 where f: "f = Inr r" "bucket_of r = Inr b"
    and rest: "as_completed_loop tot fs st1 = Inr st'"
    by (auto simp: Let_def split: sum.splits)
  from Cons.IH [OF rest] obtain outs where "fs = map Inr outs" by blast
  with f(1) have "f # fs = map Inr (r # outs)" by simp
  then show ?case by (rule exI)
qed

lemma as_completed_loop_files_by_rule:
  assumes "as_completed_loop tot (map Inr outs) st = Inr st'"
    and "\<forall>r \<in> set outs.
           (r ''is_error'' = Some (PBool True) \<and> r ''status_code'' = Some PNone) \<or>
           (r ''is_error'' = Some (PBool False) \<and> (\<exists>c. r ''status_code'' = Some (PInt c)))"
  shows "errors (results st') =
           errors (results st) @ filter (\<lambda>r. r ''is_error'' = Some (PBool True)) outs"
    and "working (results st') =
           working (results st) @
           filter (\<lambda>r. r ''is_error'' = Some (PBool False) \<and>
                       (\<exists>c. r ''status_code'' = Some (PInt c) \<and> 200 \<le> c \<and> c < 400)) outs"
    and "broken (results st') =
           broken (results st) @
           filter (\<lambda>r. r ''is_error'' = Some (PBool False) \<and>
                       (\<exists>c. r ''status_code'' = Some (PInt c) \<and> \<not> (200 \<le> c \<and> c < 400))) outs"
  using assms
proof (induction outs arbitrary: st)
  case Nil
  {
    case 1 then show ?case by simp
  next
    case 2 then show ?case by simp
  next
    case 3 then show ?case by simp
  }
next
  case (Cons r outs)
  {
    case 1
    from 1(2) have wf: "(r ''is_error'' = Some (PBool True) \<and> r ''status_code'' = Some PNone) \<or>
           (r ''is_error'' = Some (PBool False) \<and> (\<exists>c. r ''status_code'' = Some (PInt c)))"
      by simp
    from 1(2) have rest: "\<forall>r \<in> set outs.
           (r ''is_error'' = Some (PBool True) \<and> r ''status_code'' = Some PNone) \<or>
           (r ''is_error'' = Some (PBool False) \<and> (\<exists>c. r ''status_code'' = Some (PInt c)))"
      by simp
    from 1(1) wf rest Cons.IH(1) show ?case
      by (auto simp: Let_def bucket_of_rule append_result_buckets)
  next
    case 2
    from 2(2) have wf: "(r ''is_error'' = Some (PBool True) \<and> r ''status_code'' = Some PNone) \<or>
           (r ''is_error'' = Some (PBool False) \<and> (\<exists>c. r ''status_code'' = Some (PInt c)))"
      by simp
    from 2(2) have rest: "\<forall>r \<in> set outs.
           (r ''is_error'' = Some (PBool True) \<and> r ''status_code'' = Some PNone) \<or>
           (r ''is_error'' = Some (PBool False) \<and> (\<exists>c. r ''status_code'' = Some (PInt c)))"
      by simp
    from 2(1) wf rest Cons.IH(2) show ?case
      by (auto simp: Let_def bucket_of_rule append_result_buckets)
  next
    case 3
    from 3(2) have wf: "(r ''is_error'' = Some (PBool True) \<and> r ''status_code'' = Some PNone) \<or>
           (r ''is_error'' = Some (PBool False) \<and> (\<exists>c. r ''status_code'' = Some (PInt c)))"
      by simp
    from 3(2) have rest: "\<forall>r \<in> set outs.
           (r ''is_error'' = Some (PBool True) \<and> r ''status_code'' = Some PNone) \<or>
           (r ''is_error'' = Some (PBool False) \<and> (\<exists>c. r ''status_code'' = Some (PInt c)))"
      by simp
    from 3(1) wf rest Cons.IH(3) show ?case
      by (auto simp: Let_def bucket_of_rule append_result_buckets)
  }
qed

lemma completion_order_set:
  assumes "completion_order k order"
  shows "set order = {0..<k}" and "length order = k"
proof -
  from assms have m: "mset order = mset [0..<k]" by (simp add: completion_order_def)
  then have "set_mset (mset order) = set_mset (mset [0..<k])" by simp
  then show "set order = {0..<k}" by simp
  from m have "size (mset order) = size (mset [0..<k])" by simp
  then show "length order = k" by simp
qed

lemma check_url_example_600:
  "check_url example_lib example_env_600 ''https://example.com/'' = Inr example_outcome_600"
  by (simp add: check_url_def check_url_trace_def normalize_example probe_def
      example_env_600_def example_outcome_600_def)

lemma bucket_example_600: "bucket_of example_outcome_600 = Inr Broken"
  by (simp add: bucket_of_def example_outcome_600_def record_response_fields truthy_def
      as_number_def)

lemma submit_all_example:
  "submit_all example_lib example_envs example_urls =
     [Inr example_outcome_ok, Inr example_outcome_600, Inr example_outcome_down]"
  by (simp add: submit_all_def enumerate_eq_zip example_urls_def example_envs_def upt_rec
      check_url_example_ok check_url_example_600 check_url_example_down)

lemma check_urls_example_mixed:
  "check_urls example_lib example_envs 10 example_urls [2, 0, 1] = Inr example_state_mixed"
  by (simp add: check_urls_def submit_all_example bucket_example_ok bucket_example_600
      bucket_example_down append_result_def empty_results_def example_state_mixed_def)

lemma completion_order_example_mixed: "completion_order (length example_urls) [2, 0, 1]"
  by (simp add: completion_order_def example_urls_def upt_rec)

text \<open>
  Claim C5. \<^verbatim>\<open>check_urls\<close> files the outcomes of the probes, taken in completion order, by one
  rule: \<^verbatim>\<open>errors\<close> receives those with \<^verbatim>\<open>is_error\<close> true, \<^verbatim>\<open>working\<close> those with \<^verbatim>\<open>is_error\<close> false
  and a status code \<open>c\<close> with \<open>200 \<le> c < 400\<close>, \<^verbatim>\<open>broken\<close> those with \<^verbatim>\<open>is_error\<close> false and any
  other status code, whatever its size. Every outcome is in exactly one bucket: the three
  conditions exclude one another and the buckets together hold as many outcomes as were
  produced.
\<close>

theorem classification_rule:
  assumes "check_urls lib envs n urls order = Inr st"
    and "completion_order (length urls) order"
  shows "\<exists>outs. map Inr outs = map (\<lambda>i. submit_all lib envs urls ! i) order \<and>
           errors (results st) = filter (\<lambda>r. r ''is_error'' = Some (PBool True)) outs \<and>
           working (results st) =
             filter (\<lambda>r. r ''is_error'' = Some (PBool False) \<and>
                         (\<exists>c. r ''status_code'' = Some (PInt c) \<and> 200 \<le> c \<and> c < 400)) outs \<and>
           broken (results st) =
             filter (\<lambda>r. r ''is_error'' = Some (PBool False) \<and>
                         (\<exists>c. r ''status_code'' = Some (PInt c) \<and> \<not> (200 \<le> c \<and> c < 400))) outs \<and>
           length (errors (results st)) + length (working (results st)) +
             length (broken (results st)) = length outs"
proof -
  let ?fs = "submit_all lib envs urls"
  let ?init = "\<lparr>completed = 0, results = empty_results, progress = []\<rparr>"
  from assms(1) have loop: "as_completed_loop (length ?fs) (map (\<lambda>i. ?fs ! i) order) ?init = Inr st"
    by (simp add: check_urls_def Let_def split: if_splits)
  from as_completed_loop_all_returned [OF loop]
  obtain outs where outs: "map (\<lambda>i. ?fs ! i) order = map Inr outs" by blast
  have wf: "\<forall>r \<in> set outs.
           (r ''is_error'' = Some (PBool True) \<and> r ''status_code'' = Some PNone) \<or>
           (r ''is_error'' = Some (PBool False) \<and> (\<exists>c. r ''status_code'' = Some (PInt c)))"
  proof
    fix r assume "r \<in> set outs"
    then have "Inr r \<in> set (map Inr outs)" by simp
    with outs have "Inr r \<in> set (map (\<lambda>i. ?fs ! i) order)" by simp
    then obtain i where i: "i \<in> set order" "?fs ! i = Inr r" by auto
    from i(1) completion_order_set(1) [OF assms(2)] have "i < length urls" by simp
    with i(2) have "check_url lib (envs i) (urls ! i) = Inr r" by (simp add: submit_all_nth)
    then show "(r ''is_error'' = Some (PBool True) \<and> r ''status_code'' = Some PNone) \<or>
           (r ''is_error'' = Some (PBool False) \<and> (\<exists>c. r ''status_code'' = Some (PInt c)))"
      by (rule check_url_well_formed)
  qed
  from loop outs have loop': "as_completed_loop (length ?fs) (map Inr outs) ?init = Inr st"
    by simp
  note filed = as_completed_loop_files_by_rule [OF loop' wf]
  have "length outs = length (map (\<lambda>i. ?fs ! i) order)" using outs by (metis length_map)
  then have "length outs = length urls"
    using completion_order_set(2) [OF assms(2)] by simp
  moreover have "total_outcomes (results st) = length urls"
    by (rule check_urls_total [OF assms])
  ultimately have "length (errors (results st)) + length (working (results st)) +
             length (broken (results st)) = length outs"
    by (simp add: total_outcomes_def)
  with filed outs show ?thesis
    by (intro exI [of _ outs]) (simp add: empty_results_def)
qed

theorem classification_rule_witness:
  "completion_order (length example_urls) [2, 0, 1] \<and>
   check_urls example_lib example_envs 10 example_urls [2, 0, 1] = Inr example_state_mixed \<and>
   errors (results example_state_mixed) = [example_outcome_down] \<and>
   working (results example_state_mixed) = [example_outcome_ok] \<and>
   broken (results example_state_mixed) = [example_outcome_600] \<and>
   example_outcome_600 ''status_code'' = Some (PInt 600)"
proof -
  from classification_rule [OF check_urls_example_mixed completion_order_example_mixed]
  obtain outs where outs: "map Inr outs =
      map (\<lambda>i. submit_all example_lib example_envs example_urls ! i) [2, 0, 1]"
    and e: "errors (results example_state_mixed) =
      filter (\<lambda>r. r ''is_error'' = Some (PBool True)) outs"
    and w: "working (results example_state_mixed) =
      filter (\<lambda>r. r ''is_error'' = Some (PBool False) \<and>
                  (\<exists>c. r ''status_code'' = Some (PInt c) \<and> 200 \<le> c \<and> c < 400)) outs"
    and b: "broken (results example_state_mixed) =
      filter (\<lambda>r. r ''is_error'' = Some (PBool False) \<and>
                  (\<exists>c. r ''status_code'' = Some (PInt c) \<and> \<not> (200 \<le> c \<and> c < 400))) outs"
    by blast
  from outs have "map Inr outs =
      map (Inr :: result \<Rightarrow> py_exn + result)
        [example_outcome_down, example_outcome_ok, example_outcome_600]"
    by (simp add: submit_all_example)
  then have o: "outs = [example_outcome_down, example_outcome_ok, example_outcome_600]"
    by (simp only: inj_map_eq_map [OF inj_Inr])
  have f: "example_outcome_down ''is_error'' = Some (PBool True)"
    "example_outcome_ok ''is_error'' = Some (PBool False)"
    "example_outcome_ok ''status_code'' = Some (PInt 200)"
    "example_outcome_600 ''is_error'' = Some (PBool False)"
    "example_outcome_600 ''status_code'' = Some (PInt 600)"
    by (simp_all add: example_outcome_down_def example_outcome_ok_def example_outcome_600_def
        record_response_fields record_exception_fields)
  from e o f have "errors (results example_state_mixed) = [example_outcome_down]" by simp
  moreover from w o f have "working (results example_state_mixed) = [example_outcome_ok]"
    by simp
  moreover from b o f have "broken (results example_state_mixed) = [example_outcome_600]"
    by simp
  ultimately show ?thesis
    using f(5) check_urls_example_mixed completion_order_example_mixed by simp
qed

text \<open>
  Claim C6 at the input list \<^verbatim>\<open>["http://["]\<close> with 10 workers: the only future holds the
  \<^verbatim>\<open>ValueError\<close> that \<^verbatim>\<open>check_url\<close> let through, \<^verbatim>\<open>future.result()\<close> raises it again, and
  \<^verbatim>\<open>check_urls\<close> ends with that exception and returns no result set.
\<close>

theorem check_urls_propagates_ValueError:
  "check_urls lib envs 10 [''http://[''] [0] = Inl (ValueError ''Invalid IPv6 URL'')"
  by (simp add: check_urls_def submit_all_def enumerate_eq_zip check_url_unclosed_bracket)

text \<open>
  One outcome per URL when every probe returns: for a positive pool size, a completion order
  that yields each future once, and a list of URLs on each of which \<^verbatim>\<open>check_url\<close> returns an
  outcome, \<^verbatim>\<open>check_urls\<close> returns a result set whose three buckets hold as many outcomes as
  there are URLs, and these are the futures' outcomes, each once.
\<close>

theorem one_outcome_per_url:
  assumes "0 < n" and "completion_order (length urls) order"
    and "\<forall>i < length urls. \<exists>r. check_url lib (envs i) (urls ! i) = Inr r"
  shows "\<exists>st. check_urls lib envs n urls order = Inr st \<and>
           total_outcomes (results st) = length urls \<and>
           image_mset Inr (mset (all_outcomes (results st))) = mset (submit_all lib envs urls)"
proof -
  let ?fs = "submit_all lib envs urls"
  have "\<forall>f \<in> set ?fs. \<exists>r b. f = Inr r \<and> bucket_of r = Inr b"
  proof
    fix f assume "f \<in> set ?fs"
    then obtain i where i: "i < length urls" "f = ?fs ! i"
      by (auto simp: in_set_conv_nth length_submit_all)
    with assms(3) obtain r where "check_url lib (envs i) (urls ! i) = Inr r" by blast
    with i show "\<exists>r b. f = Inr r \<and> bucket_of r = Inr b"
      using bucket_of_check_url by (fastforce simp: submit_all_nth)
  qed
  moreover have "set (map (\<lambda>i. ?fs ! i) order) = set ?fs"
    using mset_completed [of ?fs order] assms(2) by (metis length_submit_all set_mset_mset)
  ultimately have "\<forall>f \<in> set (map (\<lambda>i. ?fs ! i) order). \<exists>r b. f = Inr r \<and> bucket_of r = Inr b"
    by simp
  from as_completed_loop_returns [OF this]
  obtain st where "as_completed_loop (length ?fs) (map (\<lambda>i. ?fs ! i) order)
      \<lparr>completed = 0, results = empty_results, progress = []\<rparr> = Inr st" by blast
  with assms(1) have st: "check_urls lib envs n urls order = Inr st"
    by (simp add: check_urls_def Let_def)
  with check_urls_total [OF st assms(2)] check_urls_outcomes [OF st assms(2)]
  show ?thesis by blast
qed

theorem one_outcome_per_url_witness:
  "completion_order (length [''https://example.com/'']) [0] \<and>
   check_urls example_lib (\<lambda>i. example_env_down) 10 [''https://example.com/''] [0] =
     Inr example_state_down \<and>
   total_outcomes (results example_state_down) = 1"
proof -
  have p: "\<forall>i < length [''https://example.com/''].
      \<exists>r. check_url example_lib ((\<lambda>i. example_env_down) i) ([''https://example.com/''] ! i) = Inr r"
    by (simp add: check_url_example_down)
  have w: "(0::int) < 10" by simp
  from one_outcome_per_url [OF w completion_order_example p] obtain st where
    st: "check_urls example_lib (\<lambda>i. example_env_down) 10 [''https://example.com/''] [0] = Inr st"
      "total_outcomes (results st) = length [''https://example.com/'']" by blast
  from st(1) check_urls_example_down have "st = example_state_down" by simp
  with st completion_order_example show ?thesis by simp
qed

subsection \<open>The console report\<close>

lemma subscripts_error:
  "subscripts r ks = Inl x \<Longrightarrow> \<exists>k. x = KeyError k"
  by (induction ks arbitrary: x) (auto simp: subscript_def split: option.splits sum.splits)

lemma subscripts_returns:
  "\<forall>k \<in> set ks. r k \<noteq> None \<Longrightarrow> \<exists>vs. subscripts r ks = Inr vs"
  by (induction ks) (auto simp: subscript_def)

lemma print_lines_error:
  "print_lines ks rs = Inl x \<Longrightarrow> \<exists>k. x = KeyError k"
  by (induction rs arbitrary: x) (auto split: sum.splits dest: subscripts_error)

lemma print_lines_returns:
  assumes "\<forall>r \<in> set rs. \<forall>k \<in> set ks. r k \<noteq> None"
  shows "\<exists>ls. print_lines ks rs = Inr ls"
  using assms
proof (induction rs)
  case Nil
  then show ?case by simp
next
  case (Cons r rs)
  then have "\<forall>k \<in> set ks. r k \<noteq> None" by simp
  from subscripts_returns [OF this] obtain vs where "subscripts r ks = Inr vs" by blast
  moreover from Cons obtain ls where "print_lines ks rs = Inr ls" by auto
  ultimately show ?case by simp
qed

lemma print_results_error:
  assumes "print_results rs = Inl x"
  shows "x = ZeroDivisionError \<or> (\<exists>k. x = KeyError k)"
  using assms
  by (auto simp: print_results_def percentage_def Let_def split: sum.splits if_splits
      dest: print_lines_error)

lemma print_results_zero:
  "print_results rs = Inl ZeroDivisionError \<longleftrightarrow> total_outcomes rs = 0"
proof
  assume "print_results rs = Inl ZeroDivisionError"
  then show "total_outcomes rs = 0"
    by (auto simp: print_results_def percentage_def total_outcomes_def Let_def
        split: sum.splits if_splits dest: print_lines_error)
next
  assume "total_outcomes rs = 0"
  then have "working rs = []" "broken rs = []" "errors rs = []"
    by (simp_all add: total_outcomes_def)
  then show "print_results rs = Inl ZeroDivisionError"
    by (simp add: print_results_def percentage_def)
qed

lemma print_results_returns:
  assumes "total_outcomes rs \<noteq> 0"
    and "\<forall>r \<in> set (all_outcomes rs).
           \<forall>k \<in> set [''url'', ''status_code'', ''reason'', ''response_time'', ''error_type''].
             r k \<noteq> None"
  shows "\<exists>s. print_results rs = Inr s"
proof -
  from assms(2) have
    "\<forall>r \<in> set (working rs).
       \<forall>k \<in> set [''url'', ''status_code'', ''reason'', ''response_time'']. r k \<noteq> None"
    "\<forall>r \<in> set (broken rs). \<forall>k \<in> set [''url'', ''status_code'', ''reason'']. r k \<noteq> None"
    "\<forall>r \<in> set (errors rs). \<forall>k \<in> set [''url'', ''error_type'', ''reason'']. r k \<noteq> None"
    by (simp_all add: all_outcomes_def)
  then obtain wl bl el where
    "print_lines [''url'', ''status_code'', ''reason'', ''response_time''] (working rs) = Inr wl"
    "print_lines [''url'', ''status_code'', ''reason''] (broken rs) = Inr bl"
    "print_lines [''url'', ''error_type'', ''reason''] (errors rs) = Inr el"
    using print_lines_returns by meson
  with assms(1) show ?thesis
    by (simp add: print_results_def percentage_def total_outcomes_def Let_def)
qed

lemma check_url_keys:
  assumes "check_url lib e raw = Inr r"
  shows "\<forall>k \<in> set [''url'', ''status_code'', ''reason'', ''response_time'', ''error_type''].
           r k \<noteq> None"
  using assms
  by (cases rule: check_url_Inr_cases)
     (simp_all add: record_response_fields record_exception_fields)

lemma check_urls_keys:
  assumes "check_urls lib envs n urls order = Inr st"
    and "completion_order (length urls) order"
  shows "\<forall>r \<in> set (all_outcomes (results st)).
           \<forall>k \<in> set [''url'', ''status_code'', ''reason'', ''response_time'', ''error_type''].
             r k \<noteq> None"
proof
  fix r assume "r \<in> set (all_outcomes (results st))"
  then have "(Inr r :: py_exn + result) \<in># image_mset Inr (mset (all_outcomes (results st)))"
    by simp
  then have "Inr r \<in># mset (submit_all lib envs urls)"
    by (simp only: check_urls_outcomes [OF assms])
  then have "Inr r \<in> set (submit_all lib envs urls)" by simp
  then obtain i where "i < length urls" "submit_all lib envs urls ! i = Inr r"
    by (auto simp: in_set_conv_nth length_submit_all)
  then have "check_url lib (envs i) (urls ! i) = Inr r" by (simp add: submit_all_nth)
  then show "\<forall>k \<in> set [''url'', ''status_code'', ''reason'', ''response_time'', ''error_type''].
      r k \<noteq> None"
    by (rule check_url_keys)
qed

lemma percentage_all: "percentage (Suc 0) (Suc 0) = Inr 100"
  by code_simp

lemma percentage_none: "percentage 0 (Suc 0) = Inr 0"
  by code_simp

lemma percentage_23_of_80:
  "percentage 23 80 = Inr (nearest_double (287 / 10))"
  by code_simp

lemma print_results_missing_key:
  "print_results \<lparr>working = [Map.empty], broken = [], errors = []\<rparr> = Inl (KeyError ''url'')"
  by (simp add: print_results_def subscript_def)

text \<open>
  Claim C1, as amended. \<^verbatim>\<open>print_results\<close> raises \<^verbatim>\<open>ZeroDivisionError\<close> exactly when the three
  buckets are empty; the only other exception it raises is the \<^verbatim>\<open>KeyError\<close> of an outcome that
  lacks a key its line prints, and on a non-empty result set whose outcomes have those keys it
  returns the report. The guard is in \<^verbatim>\<open>main\<close>: with no file argument, or a file that yields
  no URL, \<^verbatim>\<open>main\<close> returns before \<^verbatim>\<open>check_urls\<close> and \<^verbatim>\<open>print_results\<close> run; and a result set that
  \<^verbatim>\<open>check_urls\<close> returns for a non-empty list of URLs is not empty and its outcomes have every
  printed key, so its report is computed without a division by zero.
\<close>

theorem summary_division_guard:
  "(print_results rs = Inl ZeroDivisionError \<longleftrightarrow> total_outcomes rs = 0) \<and>
   (print_results rs = Inl x \<longrightarrow> x = ZeroDivisionError \<or> (\<exists>k. x = KeyError k)) \<and>
   (total_outcomes rs \<noteq> 0 \<and>
    (\<forall>r \<in> set (all_outcomes rs).
       \<forall>k \<in> set [''url'', ''status_code'', ''reason'', ''response_time'', ''error_type''].
         r k \<noteq> None) \<longrightarrow>
      (\<exists>s. print_results rs = Inr s)) \<and>
   main lib envs workers None order = Inr None \<and>
   (load_urls_from_file f = [] \<longrightarrow> main lib envs workers (Some f) order = Inr None) \<and>
   (urls \<noteq> [] \<and> completion_order (length urls) order \<and>
    check_urls lib envs workers urls order = Inr st \<longrightarrow>
      (\<exists>s. print_results (results st) = Inr s))"
proof -
  have a: "\<exists>s. print_results (results st) = Inr s"
    if "urls \<noteq> []" "completion_order (length urls) order"
       "check_urls lib envs workers urls order = Inr st"
  proof -
    from check_urls_total [OF that(3) that(2)] that(1)
    have "total_outcomes (results st) \<noteq> 0" by simp
    then show ?thesis using check_urls_keys [OF that(3) that(2)]
      by (rule print_results_returns)
  qed
  have b: "main lib envs workers None order = Inr None"
    "load_urls_from_file f = [] \<longrightarrow> main lib envs workers (Some f) order = Inr None"
    by (simp_all add: main_def)
  have c: "print_results rs = Inl x \<longrightarrow> x = ZeroDivisionError \<or> (\<exists>k. x = KeyError k)"
    using print_results_error by blast
  have d: "total_outcomes rs \<noteq> 0 \<and>
    (\<forall>r \<in> set (all_outcomes rs).
       \<forall>k \<in> set [''url'', ''status_code'', ''reason'', ''response_time'', ''error_type''].
         r k \<noteq> None) \<longrightarrow>
      (\<exists>s. print_results rs = Inr s)"
    using print_results_returns by blast
  from a b c d print_results_zero show ?thesis by blast
qed

theorem summary_division_guard_witness:
  "check_urls example_lib (\<lambda>i. example_env_ok) 10 [''https://example.com/''] [0] =
     Inr example_state \<and>
   print_results (results example_state) =
     Inr \<lparr>working_lines = [[PStr ''https://example.com/'', PInt 200, PStr ''OK'',
                             PFloat (py_round (1 / 8) 2)]],
          broken_lines = [], error_lines = [],
          total_checked = 1, working_pct = 100, broken_pct = 0, errors_pct = 0\<rparr> \<and>
   main example_lib (\<lambda>i. example_env_ok) 10 (Some (Some [''  ''])) [0] = Inr None"
proof -
  note t = summary_division_guard [of "results example_state" _ example_lib
      "\<lambda>i. example_env_ok" 10 "[0]" "Some [''  '']" "[''https://example.com/'']" example_state]
  have l: "load_urls_from_file (Some [''  '']) = []"
    by (simp add: load_urls_from_file_def strip_def isspace_def)
  from t l have m: "main example_lib (\<lambda>i. example_env_ok) 10 (Some (Some [''  ''])) [0] = Inr None"
    by blast
  have ne: "[''https://example.com/''] \<noteq> []" by simp
  from t ne completion_order_example check_urls_example
  obtain s where s: "print_results (results example_state) = Inr s" by blast
  have "print_results (results example_state) =
     Inr \<lparr>working_lines = [[PStr ''https://example.com/'', PInt 200, PStr ''OK'',
                             PFloat (py_round (1 / 8) 2)]],
          broken_lines = [], error_lines = [],
          total_checked = 1, working_pct = 100, broken_pct = 0, errors_pct = 0\<rparr>"
    by (simp add: print_results_def example_state_def subscript_def example_outcome_ok_def
        record_response_fields example_env_ok_def percentage_all percentage_none)
  with s m check_urls_example show ?thesis by blast
qed

text \<open>
  Claim C1 as stated fails: on a result set whose three buckets are empty, \<^verbatim>\<open>print_results\<close>
  raises \<^verbatim>\<open>ZeroDivisionError\<close> at its first percentage.
\<close>

theorem print_results_empty_counterexample:
  "print_results empty_results = Inl ZeroDivisionError"
  by (simp add: print_results_def percentage_def empty_results_def)

subsection \<open>The CSV report\<close>

lemma write_rows_closed: "write_rows rs f = f\<lparr>rows := rows f @ map csv_row rs\<rparr>"
  by (induction rs arbitrary: f) simp_all

lemma save_csv_report_closed:
  "save_csv_report rs =
     \<lparr>header = fieldnames, rows = map csv_row (working rs @ broken rs @ errors rs)\<rparr>"
  by (simp add: save_csv_report_def write_rows_closed category_def)

text \<open>
  Claim C9. The report has the header \<^verbatim>\<open>url, status_code, reason, response_time, is_error,
  error_type, redirected, redirect_url\<close> and one row per outcome: the rows of \<^verbatim>\<open>working\<close>, then
  those of \<^verbatim>\<open>broken\<close>, then those of \<^verbatim>\<open>errors\<close>, each in its bucket's order. A row holds the
  outcome's values for the eight columns in that order, and the empty string for a key the
  outcome does not have.
\<close>

theorem csv_report_layout:
  "header (save_csv_report rs) =
     [''url'', ''status_code'', ''reason'', ''response_time'', ''is_error'', ''error_type'',
      ''redirected'', ''redirect_url''] \<and>
   rows (save_csv_report rs) =
     map csv_row (working rs) @ map csv_row (broken rs) @ map csv_row (errors rs) \<and>
   length (rows (save_csv_report rs)) = total_outcomes rs \<and>
   csv_row r = [get_or_empty r ''url'', get_or_empty r ''status_code'', get_or_empty r ''reason'',
                get_or_empty r ''response_time'', get_or_empty r ''is_error'',
                get_or_empty r ''error_type'', get_or_empty r ''redirected'',
                get_or_empty r ''redirect_url''] \<and>
   (r field = None \<longrightarrow> get_or_empty r field = PStr [])"
  by (simp add: save_csv_report_closed fieldnames_def total_outcomes_def csv_row_def
      get_or_empty_def)

theorem csv_report_layout_witness:
  "example_outcome_down ''redirected'' = None \<and>
   get_or_empty example_outcome_down ''redirected'' = PStr [] \<and>
   rows (save_csv_report (results example_state_down)) =
     [[PStr ''https://example.com/'', PNone, PStr ''connection refused'', PInt 0, PBool True,
       PStr ''ConnectionError'', PStr [], PStr []]]"
proof -
  note t = csv_report_layout [of "results example_state_down" example_outcome_down
      "''redirected''"]
  have a: "example_outcome_down ''redirected'' = None"
    by (simp add: example_outcome_down_def record_exception_fields)
  from t a have g: "get_or_empty example_outcome_down ''redirected'' = PStr []" by blast
  have b: "csv_row example_outcome_down =
     [PStr ''https://example.com/'', PNone, PStr ''connection refused'', PInt 0, PBool True,
       PStr ''ConnectionError'', PStr [], PStr []]"
    by (simp add: csv_row_def fieldnames_def get_or_empty_def example_outcome_down_def
        record_exception_fields)
  from t have "rows (save_csv_report (results example_state_down)) =
      map csv_row (working (results example_state_down)) @
      map csv_row (broken (results example_state_down)) @
      map csv_row (errors (results example_state_down))" by blast
  also have "\<dots> = [csv_row example_outcome_down]" by (simp add: example_state_down_def)
  finally have "rows (save_csv_report (results example_state_down)) =
     [[PStr ''https://example.com/'', PNone, PStr ''connection refused'', PInt 0, PBool True,
       PStr ''ConnectionError'', PStr [], PStr []]]" by (simp only: b)
  with a g show ?thesis by blast
qed

end
